theory Spec2Isabelle
  imports Complex_Main "HOL-Library.AList" "HOL-Library.Multiset"
begin

section \<open>The Model Caller and the task router of AgentRecommend\<close>

text \<open>
  The development embeds two source files,
  \<^verbatim>\<open>src/agents/utils/function_caller_model.py\<close> (class \<^verbatim>\<open>LiteLLMFunctionCaller\<close>) and
  \<^verbatim>\<open>src/agents/utils/MultiAgentRouter.py\<close> (class \<^verbatim>\<open>MultiAgentRouter\<close>).

  Everything outside these two files is an external collaborator and is a parameter of
  the model: the completion endpoint, the JSON decoder, the schema validator, the clock,
  the id generator, the stringifier of the decision and the handlers' entry points.
  Whatever an external collaborator may read or change (the endpoint's state, the clock,
  the random source) is the world, a value of the type variable \<open>'w\<close> that every effectful
  call takes and returns. The type variable \<open>'j\<close> stands for the values the JSON decoder
  produces. A Python \<^verbatim>\<open>str\<close> is a list of characters, one per code point.
  Calls to the loggers and to \<^verbatim>\<open>print\<close> are left out: they change no value the
  program reads.
\<close>

subsection \<open>Exceptions\<close>

text \<open>
  Only subclasses of \<^verbatim>\<open>Exception\<close> are modelled. \<open>Raised\<close> is an exception that comes out
  of an external collaborator (the endpoint or a handler), with its message.
\<close>

datatype error =
    ValueError string
  | AttributeError string
  | IndexError
  | JSONDecodeError
  | ValidationError
  | Raised string

subsection \<open>Python string helpers\<close>

definition startswith :: "string \<Rightarrow> string \<Rightarrow> bool" where
  "startswith s p = (take (length p) s = p)"

text \<open>\<^verbatim>\<open>s.strip(chars)\<close> removes from both ends every character that occurs in \<open>chars\<close>.\<close>

definition strip_chars :: "string \<Rightarrow> string \<Rightarrow> string" where
  "strip_chars s chars =
     rev (dropWhile (\<lambda>c. c \<in> set chars) (rev (dropWhile (\<lambda>c. c \<in> set chars) s)))"

text \<open>
  \<^verbatim>\<open>str.isspace\<close> on the code points below 256: tab, line feed, vertical tab, form feed,
  carriage return, the four separators 28 to 31, space, next line (133) and no-break
  space (160).
\<close>

definition isspace :: "char \<Rightarrow> bool" where
  "isspace c = (of_char c \<in> {9, 10, 11, 12, 13, 28, 29, 30, 31, 32, 133, 160 :: nat})"

definition strip :: "string \<Rightarrow> string" where
  "strip s = rev (dropWhile isspace (rev (dropWhile isspace s)))"

subsection \<open>The decision schema and the external world\<close>

text \<open>\<^verbatim>\<open>class AgentResponse(BaseModel)\<close>.\<close>

record AgentResponse =
  selected_agent :: string
  reasoning :: string
  modified_task :: "string option"

text \<open>The keyword arguments of \<^verbatim>\<open>litellm.completion\<close>; the messages are (role, content) pairs.\<close>

record request =
  req_model :: string
  req_messages :: "(string \<times> string) list"
  req_api_key :: string
  req_temperature :: rat
  req_max_tokens :: int

text \<open>
  What \<^verbatim>\<open>run\<close> reads of a completion response: the list \<^verbatim>\<open>response["choices"]\<close>, each
  choice given by its \<^verbatim>\<open>["message"]["content"]\<close>, which is a string or \<^verbatim>\<open>None\<close>.
\<close>

type_synonym response = "string option list"

text \<open>
  What \<^verbatim>\<open>run\<close> returns when it does not return \<^verbatim>\<open>None\<close>: the validated model, or the
  decoded JSON value when no schema was declared.
\<close>

datatype 'j run_value = Validated AgentResponse | Parsed 'j

text \<open>
  The external collaborators. \<open>completion\<close> is \<^verbatim>\<open>litellm.completion\<close>, \<open>json_loads\<close> is
  \<^verbatim>\<open>json.loads\<close> (\<open>None\<close> when it raises), \<open>now\<close> is \<^verbatim>\<open>datetime.now\<close> (a time in
  microseconds), \<open>uuid4\<close> is \<^verbatim>\<open>str(uuid.uuid4())\<close> and \<open>any_to_str\<close> is the function of
  that name of the swarms library.
\<close>

record ('w, 'j) env =
  completion :: "request \<Rightarrow> 'w \<Rightarrow> (error + response) \<times> 'w"
  json_loads :: "string \<Rightarrow> 'j option"
  now :: "'w \<Rightarrow> int \<times> 'w"
  uuid4 :: "'w \<Rightarrow> string \<times> 'w"
  any_to_str :: "'j run_value option \<Rightarrow> string"

subsection \<open>LiteLLMFunctionCaller\<close>

text \<open>
  The attributes set by \<^verbatim>\<open>__init__\<close>. \<open>base_model\<close> is the declared schema, given by its
  \<^verbatim>\<open>model_validate\<close> (\<open>None\<close> from it when validation raises); the field is \<open>None\<close> when
  no schema was declared.
\<close>

record 'j LiteLLMFunctionCaller =
  model_name :: string
  system_prompt :: string
  api_key :: string
  temperature :: rat
  base_model :: "('j \<Rightarrow> AgentResponse option) option"
  max_tokens :: int

definition make_request :: "'j LiteLLMFunctionCaller \<Rightarrow> string \<Rightarrow> request" where
  "make_request self task =
     \<lparr>req_model = model_name self,
      req_messages = [(''system'', system_prompt self), (''user'', task)],
      req_api_key = api_key self,
      req_temperature = temperature self,
      req_max_tokens = max_tokens self\<rparr>"

text \<open>
  Lines 43 to 45 of \<^verbatim>\<open>run\<close>:
  \<^verbatim>\<open>if content.startswith("```json"): content = content.strip("```json").strip("```").strip()\<close>
\<close>

definition remove_markdown :: "string \<Rightarrow> string" where
  "remove_markdown content =
     (if startswith content ''```json''
      then strip (strip_chars (strip_chars content ''```json'') ''```'')
      else content)"

text \<open>Lines 47 to 52: decode, then validate when a schema was declared.\<close>

definition parse_content :: "('w, 'j) env \<Rightarrow> 'j LiteLLMFunctionCaller \<Rightarrow> string \<Rightarrow> error + 'j run_value" where
  "parse_content e self content =
     (case json_loads e (remove_markdown content) of
        None \<Rightarrow> Inl JSONDecodeError
      | Some parsed_content \<Rightarrow>
          (case base_model self of
             Some model_validate \<Rightarrow>
               (case model_validate parsed_content of
                  None \<Rightarrow> Inl ValidationError
                | Some m \<Rightarrow> Inr (Validated m))
           | None \<Rightarrow> Inr (Parsed parsed_content)))"

text \<open>
  The body of the \<^verbatim>\<open>try\<close> block of \<^verbatim>\<open>run\<close>. \<^verbatim>\<open>response["choices"][0]\<close> raises on an empty
  list, and \<^verbatim>\<open>content.startswith\<close> raises when the content is \<^verbatim>\<open>None\<close>.
\<close>

definition run_try :: "('w, 'j) env \<Rightarrow> 'j LiteLLMFunctionCaller \<Rightarrow> string \<Rightarrow> 'w \<Rightarrow> (error + 'j run_value) \<times> 'w" where
  "run_try e self task w =
     (case completion e (make_request self task) w of
        (Inl err, w') \<Rightarrow> (Inl err, w')
      | (Inr choices, w') \<Rightarrow>
          (case choices of
             [] \<Rightarrow> (Inl IndexError, w')
           | None # _ \<Rightarrow> (Inl (AttributeError ''startswith''), w')
           | Some content # _ \<Rightarrow> (parse_content e self content, w')))"

text \<open>\<^verbatim>\<open>run\<close>: the \<^verbatim>\<open>except Exception\<close> branch turns every exception into \<^verbatim>\<open>None\<close>.\<close>

definition run :: "('w, 'j) env \<Rightarrow> 'j LiteLLMFunctionCaller \<Rightarrow> string \<Rightarrow> 'w \<Rightarrow> 'j run_value option \<times> 'w" where
  "run e self task w =
     (case run_try e self task w of
        (Inl err, w') \<Rightarrow> (None, w')
      | (Inr v, w') \<Rightarrow> (Some v, w'))"

text \<open>\<^verbatim>\<open>batch_run\<close>: \<^verbatim>\<open>[self.run(task) for task in tasks]\<close>, one call after the other.\<close>

fun batch_run :: "('w, 'j) env \<Rightarrow> 'j LiteLLMFunctionCaller \<Rightarrow> string list \<Rightarrow> 'w \<Rightarrow> 'j run_value option list \<times> 'w" where
  "batch_run e self [] w = ([], w)"
| "batch_run e self (task # tasks) w =
     (case run e self task w of
        (r, w1) \<Rightarrow> (case batch_run e self tasks w1 of (rs, w2) \<Rightarrow> (r # rs, w2)))"

text \<open>
  \<^verbatim>\<open>concurrent_run\<close>. The constructor \<^verbatim>\<open>ThreadPoolExecutor(max_workers=len(tasks))\<close> raises
  \<^verbatim>\<open>ValueError\<close> when \<^verbatim>\<open>max_workers <= 0\<close>; nothing catches it. Otherwise
  \<^verbatim>\<open>executor.map\<close> submits one call of \<^verbatim>\<open>run\<close> per task and yields the results by
  position. Each call of \<^verbatim>\<open>run\<close> touches the world once, in its completion request, so
  an execution of the pool is given by the order \<open>sched\<close> in which the positions reach
  the endpoint (a permutation of the positions).
\<close>

fun run_scheduled :: "('w, 'j) env \<Rightarrow> 'j LiteLLMFunctionCaller \<Rightarrow> string list \<Rightarrow> nat list \<Rightarrow>
    'j run_value option list \<Rightarrow> 'w \<Rightarrow> 'j run_value option list \<times> 'w" where
  "run_scheduled e self tasks [] slots w = (slots, w)"
| "run_scheduled e self tasks (i # sched) slots w =
     (if i < length tasks
      then (case run e self (tasks ! i) w of
              (r, w') \<Rightarrow> run_scheduled e self tasks sched (slots[i := r]) w')
      else run_scheduled e self tasks sched slots w)"

definition concurrent_run :: "('w, 'j) env \<Rightarrow> 'j LiteLLMFunctionCaller \<Rightarrow> string list \<Rightarrow> nat list \<Rightarrow> 'w \<Rightarrow>
    (error + 'j run_value option list) \<times> 'w" where
  "concurrent_run e self tasks sched w =
     (if int (length tasks) \<le> 0
      then (Inl (ValueError ''max_workers must be greater than 0''), w)
      else (case run_scheduled e self tasks sched (replicate (length tasks) None) w of
              (slots, w') \<Rightarrow> (Inr slots, w')))"

subsection \<open>MultiAgentRouter\<close>

text \<open>
  A handler is an \<^verbatim>\<open>Agent\<close> of the swarms library; the router reads its \<^verbatim>\<open>name\<close>, \<^verbatim>\<open>id\<close>
  and \<^verbatim>\<open>description\<close> and calls its \<^verbatim>\<open>run\<close>, which may raise and may change the world.
\<close>

record 'w Agent =
  agent_name :: string
  agent_id :: string
  agent_description :: string
  agent_run :: "string \<Rightarrow> 'w \<Rightarrow> (error + string) \<times> 'w"

text \<open>
  The attributes of the router that \<^verbatim>\<open>route_task\<close> reads. \<open>agents\<close> is the dictionary
  \<^verbatim>\<open>self.agents\<close>, kept as an association list in insertion order.
  \<^verbatim>\<open>self.conversation\<close>, the one attribute that \<^verbatim>\<open>route_task\<close> changes, is part of the state.
\<close>

record ('w, 'j) MultiAgentRouter =
  router_name :: string
  router_description :: string
  agents :: "(string \<times> 'w Agent) list"
  execute_task :: bool
  function_caller :: "'j LiteLLMFunctionCaller"

text \<open>
  \<^verbatim>\<open>{agent.name: agent for agent in agents}\<close>: a later agent of the same name replaces the
  earlier one.
\<close>

definition agents_dict :: "'w Agent list \<Rightarrow> (string \<times> 'w Agent) list" where
  "agents_dict ags = foldl (\<lambda>d a. AList.update (agent_name a) a d) [] ags"

text \<open>The conversation log: the (role, content) turns, \<^verbatim>\<open>Conversation.add\<close> appends one.\<close>

type_synonym conversation = "(string \<times> string) list"

definition conversation_add :: "string \<Rightarrow> string \<Rightarrow> conversation \<Rightarrow> conversation" where
  "conversation_add role content conv = conv @ [(role, content)]"

text \<open>The dictionary that \<^verbatim>\<open>route_task\<close> returns; elapsed times are in microseconds.\<close>

record task_variants =
  original :: string
  modified :: "string option"

record decision_fields =
  decision_selected_agent :: string
  decision_reasoning :: string

record execution_fields =
  exec_agent_name :: string
  exec_agent_id :: string
  was_executed :: bool
  exec_response :: "string option"
  exec_execution_time :: "int option"

record TaskRecord =
  rec_id :: string
  timestamp :: int
  rec_task :: task_variants
  boss_decision :: decision_fields
  execution :: execution_fields
  rec_total_time :: int

text \<open>Python truth value of an \<^verbatim>\<open>Optional[str]\<close>: \<^verbatim>\<open>None\<close> and the empty string are false.\<close>

definition truthy :: "string option \<Rightarrow> bool" where
  "truthy x = (case x of None \<Rightarrow> False | Some s \<Rightarrow> s \<noteq> [])"

text \<open>
  Lines 195 to 224 of \<^verbatim>\<open>route_task\<close>: the total time, then the dictionary, whose entries
  are evaluated in the order written (the id before the timestamp).
\<close>

definition make_result :: "('w, 'j) env \<Rightarrow> ('w, 'j) MultiAgentRouter \<Rightarrow> string \<Rightarrow> string \<Rightarrow> AgentResponse \<Rightarrow>
    'w Agent \<Rightarrow> int \<Rightarrow> string option \<Rightarrow> int \<Rightarrow> 'w \<Rightarrow> TaskRecord \<times> 'w" where
  "make_result e self task final_task boss_response agent start_time agent_response exec_time w =
     (case now e w of (t1, w1) \<Rightarrow>
      case uuid4 e w1 of (uid, w2) \<Rightarrow>
      case now e w2 of (t2, w3) \<Rightarrow>
        (\<lparr>rec_id = uid,
          timestamp = t2,
          rec_task = \<lparr>original = task,
                      modified = (if truthy (modified_task boss_response) then Some final_task else None)\<rparr>,
          boss_decision = \<lparr>decision_selected_agent = selected_agent boss_response,
                           decision_reasoning = reasoning boss_response\<rparr>,
          execution = \<lparr>exec_agent_name = agent_name agent,
                       exec_agent_id = agent_id agent,
                       was_executed = execute_task self,
                       exec_response = (if execute_task self then agent_response else None),
                       exec_execution_time = (if execute_task self then Some exec_time else None)\<rparr>,
          rec_total_time = t1 - start_time\<rparr>, w3))"

text \<open>
  Lines 169 to 229: the part of \<^verbatim>\<open>route_task\<close> after the selected agent was found.
  \<^verbatim>\<open>final_task = task\<close>; the line that took the modified task is commented out in the source.
\<close>

definition dispatch :: "('w, 'j) env \<Rightarrow> ('w, 'j) MultiAgentRouter \<Rightarrow> string \<Rightarrow> AgentResponse \<Rightarrow> 'w Agent \<Rightarrow> int \<Rightarrow>
    conversation \<times> 'w \<Rightarrow> (error + TaskRecord) \<times> conversation \<times> 'w" where
  "dispatch e self task boss_response agent start_time s =
     (case s of (conv, w) \<Rightarrow>
      let final_task = task in
      case now e w of (execution_start, w1) \<Rightarrow>
        if execute_task self
        then (case agent_run agent final_task w1 of
                (Inl err, w2) \<Rightarrow> (Inl err, conv, w2)
              | (Inr agent_response, w2) \<Rightarrow>
                  (case now e w2 of (t, w3) \<Rightarrow>
                   case make_result e self task final_task boss_response agent start_time
                          (Some agent_response) (t - execution_start) w3 of
                     (result, w4) \<Rightarrow>
                       (Inr result, conversation_add (agent_name agent) agent_response conv, w4)))
        else (case make_result e self task final_task boss_response agent start_time None 0 w1 of
                (result, w2) \<Rightarrow> (Inr result, conv, w2)))"

text \<open>
  \<^verbatim>\<open>route_task\<close>. Reading \<^verbatim>\<open>boss_response.selected_agent\<close> raises \<^verbatim>\<open>AttributeError\<close> when the
  decision step returned \<^verbatim>\<open>None\<close> or a plain dictionary. The membership test of line 164
  and the lookup of line 170 are the one \<open>map_of\<close>. The \<^verbatim>\<open>except\<close> branch logs and
  raises again, so every exception leaves \<^verbatim>\<open>route_task\<close> as it is.
\<close>

definition route_task :: "('w, 'j) env \<Rightarrow> ('w, 'j) MultiAgentRouter \<Rightarrow> string \<Rightarrow>
    conversation \<times> 'w \<Rightarrow> (error + TaskRecord) \<times> conversation \<times> 'w" where
  "route_task e self task s =
     (case s of (conv, w) \<Rightarrow>
       (case now e w of (start_time, w1) \<Rightarrow>
         (case run e (function_caller self) task w1 of (boss_response, w2) \<Rightarrow>
           (let conv1 = conversation_add ''user'' task conv;
                boss_response_str = any_to_str e boss_response;
                conv2 = conversation_add ''assistant'' boss_response_str conv1
            in (case boss_response of
                  None \<Rightarrow> (Inl (AttributeError ''selected_agent''), conv2, w2)
                | Some (Parsed d) \<Rightarrow> (Inl (AttributeError ''selected_agent''), conv2, w2)
                | Some (Validated b) \<Rightarrow>
                    (case map_of (agents self) (selected_agent b) of
                       None \<Rightarrow>
                         (Inl (ValueError (''Boss selected unknown agent: '' @ selected_agent b)),
                          conv2, w2)
                     | Some agent \<Rightarrow> dispatch e self task b agent start_time (conv2, w2)))))))"

text \<open>
  The router's \<^verbatim>\<open>batch_run\<close>: the loop over the tasks, with the results so far as the
  accumulator; a task whose \<^verbatim>\<open>route_task\<close> raises appends nothing.
\<close>

fun router_batch_loop :: "('w, 'j) env \<Rightarrow> ('w, 'j) MultiAgentRouter \<Rightarrow> string list \<Rightarrow> TaskRecord list \<Rightarrow>
    conversation \<times> 'w \<Rightarrow> TaskRecord list \<times> conversation \<times> 'w" where
  "router_batch_loop e self [] results s = (results, s)"
| "router_batch_loop e self (task # tasks) results s =
     (case route_task e self task s of
        (Inr result, s') \<Rightarrow> router_batch_loop e self tasks (results @ [result]) s'
      | (Inl err, s') \<Rightarrow> router_batch_loop e self tasks results s')"

definition router_batch_run :: "('w, 'j) env \<Rightarrow> ('w, 'j) MultiAgentRouter \<Rightarrow> string list \<Rightarrow>
    conversation \<times> 'w \<Rightarrow> TaskRecord list \<times> conversation \<times> 'w" where
  "router_batch_run e self tasks s = router_batch_loop e self tasks [] s"

text \<open>The results among a list of outcomes: the exceptions are dropped.\<close>

fun successes :: "(error + 'a) list \<Rightarrow> 'a list" where
  "successes [] = []"
| "successes (Inr r # outs) = r # successes outs"
| "successes (Inl err # outs) = successes outs"

subsection \<open>The router's concurrent batch run\<close>

text \<open>
  \<^verbatim>\<open>concurrent_batch_run\<close> submits one call of \<^verbatim>\<open>route_task\<close> per task to a thread pool.
  The threads share the conversation and the world, and each call of \<^verbatim>\<open>route_task\<close>
  touches them several times, so a thread is modelled by where it stands in
  \<^verbatim>\<open>route_task\<close>, with the local variables it holds there. One step is one effect on the
  shared state: an append to the conversation or one call of an external collaborator
  (taken as atomic). The constructors follow the source: line 151, 152, 155, 157 to 170,
  177, 183, 184, 187, 195, 198, 199, and the end of the call with its outcome.
\<close>

datatype ('w, 'j) thread =
    AddUserTurn
  | ReadStart
  | Decide int
  | AddAssistantTurn int "'j run_value option"
  | ReadExecutionStart int AgentResponse "'w Agent"
  | RunAgent int AgentResponse "'w Agent" int
  | AddAgentTurn int AgentResponse "'w Agent" int string
  | ReadExecutionEnd int AgentResponse "'w Agent" int string
  | ReadEnd int AgentResponse "'w Agent" "string option" int
  | MakeId AgentResponse "'w Agent" "string option" int int
  | ReadTimestamp AgentResponse "'w Agent" "string option" int int string
  | Finished "error + TaskRecord"

fun thread_step :: "('w, 'j) env \<Rightarrow> ('w, 'j) MultiAgentRouter \<Rightarrow> string \<Rightarrow> ('w, 'j) thread \<Rightarrow>
    conversation \<times> 'w \<Rightarrow> ('w, 'j) thread \<times> conversation \<times> 'w" where
  "thread_step e self task AddUserTurn (conv, w) =
     (ReadStart, conversation_add ''user'' task conv, w)"
| "thread_step e self task ReadStart (conv, w) =
     (case now e w of (start_time, w') \<Rightarrow> (Decide start_time, conv, w'))"
| "thread_step e self task (Decide start_time) (conv, w) =
     (case run e (function_caller self) task w of
        (boss_response, w') \<Rightarrow> (AddAssistantTurn start_time boss_response, conv, w'))"
| "thread_step e self task (AddAssistantTurn start_time boss_response) (conv, w) =
     (let conv' = conversation_add ''assistant'' (any_to_str e boss_response) conv
      in (case boss_response of
            None \<Rightarrow> (Finished (Inl (AttributeError ''selected_agent'')), conv', w)
          | Some (Parsed d) \<Rightarrow> (Finished (Inl (AttributeError ''selected_agent'')), conv', w)
          | Some (Validated b) \<Rightarrow>
              (case map_of (agents self) (selected_agent b) of
                 None \<Rightarrow>
                   (Finished (Inl (ValueError (''Boss selected unknown agent: '' @ selected_agent b))),
                    conv', w)
               | Some agent \<Rightarrow> (ReadExecutionStart start_time b agent, conv', w))))"
| "thread_step e self task (ReadExecutionStart start_time b agent) (conv, w) =
     (case now e w of
        (execution_start, w') \<Rightarrow>
          (if execute_task self then RunAgent start_time b agent execution_start
           else ReadEnd start_time b agent None 0, conv, w'))"
| "thread_step e self task (RunAgent start_time b agent execution_start) (conv, w) =
     (case agent_run agent task w of
        (Inl err, w') \<Rightarrow> (Finished (Inl err), conv, w')
      | (Inr agent_response, w') \<Rightarrow>
          (AddAgentTurn start_time b agent execution_start agent_response, conv, w'))"
| "thread_step e self task (AddAgentTurn start_time b agent execution_start agent_response) (conv, w) =
     (ReadExecutionEnd start_time b agent execution_start agent_response,
      conversation_add (agent_name agent) agent_response conv, w)"
| "thread_step e self task (ReadExecutionEnd start_time b agent execution_start agent_response) (conv, w) =
     (case now e w of
        (t, w') \<Rightarrow> (ReadEnd start_time b agent (Some agent_response) (t - execution_start), conv, w'))"
| "thread_step e self task (ReadEnd start_time b agent agent_response exec_time) (conv, w) =
     (case now e w of
        (t, w') \<Rightarrow> (MakeId b agent agent_response exec_time (t - start_time), conv, w'))"
| "thread_step e self task (MakeId b agent agent_response exec_time total_t) (conv, w) =
     (case uuid4 e w of
        (uid, w') \<Rightarrow> (ReadTimestamp b agent agent_response exec_time total_t uid, conv, w'))"
| "thread_step e self task (ReadTimestamp b agent agent_response exec_time total_t uid) (conv, w) =
     (case now e w of
        (t, w') \<Rightarrow>
          (Finished (Inr
             \<lparr>rec_id = uid,
              timestamp = t,
              rec_task = \<lparr>original = task,
                          modified = (if truthy (modified_task b) then Some task else None)\<rparr>,
              boss_decision = \<lparr>decision_selected_agent = selected_agent b,
                               decision_reasoning = reasoning b\<rparr>,
              execution = \<lparr>exec_agent_name = agent_name agent,
                           exec_agent_id = agent_id agent,
                           was_executed = execute_task self,
                           exec_response = (if execute_task self then agent_response else None),
                           exec_execution_time = (if execute_task self then Some exec_time else None)\<rparr>,
              rec_total_time = total_t\<rparr>), conv, w'))"
| "thread_step e self task (Finished out) (conv, w) = (Finished out, conv, w)"


text \<open>
  An execution of the pool is given by its schedule: the list of the threads' positions
  in the order in which they take their steps. A thread that has finished does nothing
  when scheduled.
\<close>

fun interleave :: "('w, 'j) env \<Rightarrow> ('w, 'j) MultiAgentRouter \<Rightarrow> string list \<Rightarrow> nat list \<Rightarrow>
    ('w, 'j) thread list \<Rightarrow> conversation \<times> 'w \<Rightarrow> ('w, 'j) thread list \<times> conversation \<times> 'w" where
  "interleave e self tasks [] threads s = (threads, s)"
| "interleave e self tasks (i # sched) threads s =
     (if i < length tasks
      then (case thread_step e self (tasks ! i) (threads ! i) s of
              (th, s') \<Rightarrow> interleave e self tasks sched (threads[i := th]) s')
      else interleave e self tasks sched threads s)"







subsection \<open>The outcomes of routing the tasks one by one\<close>

text \<open>
  What the batch claims compare \<^verbatim>\<open>batch_run\<close> with: each task routed in turn, the state
  passed on, every outcome kept at its position, an exception as \<open>Inl\<close>.
\<close>

fun route_outcomes :: "('w, 'j) env \<Rightarrow> ('w, 'j) MultiAgentRouter \<Rightarrow> string list \<Rightarrow>
    conversation \<times> 'w \<Rightarrow> (error + TaskRecord) list" where
  "route_outcomes e self [] s = []"
| "route_outcomes e self (task # tasks) s =
     (case route_task e self task s of (out, s') \<Rightarrow> out # route_outcomes e self tasks s')"

text \<open>The fields of a record other than its id, its timestamp and its two elapsed times.\<close>

definition stable_fields :: "TaskRecord \<Rightarrow> task_variants \<times> decision_fields \<times> string \<times> string \<times> bool \<times> string option" where
  "stable_fields r =
     (rec_task r, boss_decision r, exec_agent_name (execution r), exec_agent_id (execution r),
      was_executed (execution r), exec_response (execution r))"

text \<open>The reply of the claim on fences: \<open>t\<close> between the line of the opening fence and the closing fence.\<close>

definition fenced :: "string \<Rightarrow> string" where
  "fenced t = ''```json'' @ [CHR 0x0A] @ t @ [CHR 0x0A] @ ''```''"

subsection \<open>A concrete world\<close>

text \<open>
  The registry of the specification's scenario: A handles greetings, B handles math.
  The world is a counter that every external call advances; the clock and the id
  generator read it. A handler answers with its name and the text it was given. The
  endpoint answers by the task it is sent, and the decoder knows the replies below.
\<close>

datatype json = JNull | JString string | JObject "(string \<times> json) list"

definition reply_B :: string where
  \<open>reply_B = ''{"selected_agent": "B", "reasoning": "math task"}''\<close>

definition reply_C :: string where
  \<open>reply_C = ''{"selected_agent": "C", "reasoning": "none fits"}''\<close>

definition reply_modified :: string where
  \<open>reply_modified = ''{"selected_agent": "B", "reasoning": "math task", "modified_task": "Compute 2+2"}''\<close>

definition reply_no_agent :: string where
  \<open>reply_no_agent = ''{"reasoning": "math task"}''\<close>

definition demo_json_loads :: "string \<Rightarrow> json option" where
  "demo_json_loads = map_of
     [(reply_B, JObject [(''selected_agent'', JString ''B''), (''reasoning'', JString ''math task'')]),
      (reply_C, JObject [(''selected_agent'', JString ''C''), (''reasoning'', JString ''none fits'')]),
      (reply_modified,
         JObject [(''selected_agent'', JString ''B''), (''reasoning'', JString ''math task''),
                  (''modified_task'', JString ''Compute 2+2'')]),
      (reply_no_agent, JObject [(''reasoning'', JString ''math task'')]),
      (''null'', JNull)]"

definition demo_validate :: "json \<Rightarrow> AgentResponse option" where
  "demo_validate j =
     (case j of
        JObject kv \<Rightarrow>
          (case (map_of kv ''selected_agent'', map_of kv ''reasoning'') of
             (Some (JString a), Some (JString r)) \<Rightarrow>
               (case map_of kv ''modified_task'' of
                  None \<Rightarrow> Some \<lparr>selected_agent = a, reasoning = r, modified_task = None\<rparr>
                | Some JNull \<Rightarrow> Some \<lparr>selected_agent = a, reasoning = r, modified_task = None\<rparr>
                | Some (JString m) \<Rightarrow> Some \<lparr>selected_agent = a, reasoning = r, modified_task = Some m\<rparr>
                | Some (JObject x) \<Rightarrow> None)
           | _ \<Rightarrow> None)
      | _ \<Rightarrow> None)"

definition demo_reply :: "string \<Rightarrow> error + response" where
  "demo_reply task =
     (if task = ''What is 2+2?'' then Inr [Some reply_B]
      else if task = ''Say hi'' then Inr [Some reply_C]
      else if task = ''Add 2 and 2'' then Inr [Some reply_modified]
      else if task = ''fenced'' then Inr [Some (fenced reply_B)]
      else if task = ''prose'' then Inr [Some ''I pick B'']
      else if task = ''partial'' then Inr [Some reply_no_agent]
      else Inl (Raised ''timeout''))"

definition demo_env :: "(nat, json) env" where
  "demo_env =
     \<lparr>completion = (\<lambda>req w. (case req_messages req of
                                 [sys, (role, task)] \<Rightarrow> demo_reply task
                               | _ \<Rightarrow> Inl (Raised ''bad request''), Suc w)),
      json_loads = demo_json_loads,
      now = (\<lambda>w. (int w, Suc w)),
      uuid4 = (\<lambda>w. (replicate w (CHR ''u''), Suc w)),
      any_to_str = (\<lambda>v. case v of
                           None \<Rightarrow> ''None''
                         | Some (Validated b) \<Rightarrow> selected_agent b @ '': '' @ reasoning b
                         | Some (Parsed j) \<Rightarrow> ''dict'')\<rparr>"

definition demo_agent :: "string \<Rightarrow> string \<Rightarrow> nat Agent" where
  "demo_agent n d =
     \<lparr>agent_name = n, agent_id = ''id-'' @ n, agent_description = d,
      agent_run = (\<lambda>task w. (Inr (n @ '' got: '' @ task), Suc w))\<rparr>"

definition demo_caller :: "json LiteLLMFunctionCaller" where
  "demo_caller =
     \<lparr>model_name = ''gemini/gemini-2.0-flash'', system_prompt = ''route'', api_key = ''key'',
      temperature = 1 / 10, base_model = Some demo_validate, max_tokens = 5000\<rparr>"

definition demo_router :: "(nat, json) MultiAgentRouter" where
  "demo_router =
     \<lparr>router_name = ''swarm-router'', router_description = ''routes'',
      agents = agents_dict [demo_agent ''A'' ''handles greetings'', demo_agent ''B'' ''handles math''],
      execute_task = True,
      function_caller = demo_caller\<rparr>"

section \<open>Properties\<close>

subsection \<open>Evaluation in the concrete world\<close>

lemma demo_run_B:
  "run demo_env (function_caller demo_router) ''What is 2+2?'' (snd (now demo_env 0)) =
     (Some (Validated \<lparr>selected_agent = ''B'', reasoning = ''math task'', modified_task = None\<rparr>), 2)"
  by code_simp

lemma demo_run_C:
  "run demo_env (function_caller demo_router) ''Say hi'' (snd (now demo_env 0)) =
     (Some (Validated \<lparr>selected_agent = ''C'', reasoning = ''none fits'', modified_task = None\<rparr>), 2)"
  by code_simp

lemma demo_run_modified:
  "run demo_env (function_caller demo_router) ''Add 2 and 2'' (snd (now demo_env 0)) =
     (Some (Validated \<lparr>selected_agent = ''B'', reasoning = ''math task'',
                        modified_task = Some ''Compute 2+2''\<rparr>), 2)"
  by code_simp

lemma demo_route_B:
  "route_task demo_env demo_router ''What is 2+2?'' ([], 0) =
     (Inr \<lparr>rec_id = ''uuuuuu'', timestamp = 7,
            rec_task = \<lparr>original = ''What is 2+2?'', modified = None\<rparr>,
            boss_decision = \<lparr>decision_selected_agent = ''B'', decision_reasoning = ''math task''\<rparr>,
            execution = \<lparr>exec_agent_name = ''B'', exec_agent_id = ''id-B'', was_executed = True,
                         exec_response = Some ''B got: What is 2+2?'',
                         exec_execution_time = Some 2\<rparr>,
            rec_total_time = 5\<rparr>,
      [(''user'', ''What is 2+2?''), (''assistant'', ''B: math task''),
       (''B'', ''B got: What is 2+2?'')],
      8)"
  by code_simp

lemma demo_route_C:
  "route_task demo_env demo_router ''Say hi'' ([], 0) =
     (Inl (ValueError ''Boss selected unknown agent: C''),
      [(''user'', ''Say hi''), (''assistant'', ''C: none fits'')], 2)"
  by code_simp

lemma demo_registry: "fst ` set (agents demo_router) = {''A'', ''B''}"
  by (simp add: demo_router_def agents_dict_def demo_agent_def insert_commute)

lemma demo_lookup_B:
  "map_of (agents demo_router) ''B'' = Some (demo_agent ''B'' ''handles math'')"
  by (simp add: demo_router_def agents_dict_def demo_agent_def)

lemma demo_route_modified:
  "route_task demo_env demo_router ''Add 2 and 2'' ([], 0) =
     (Inr \<lparr>rec_id = ''uuuuuu'', timestamp = 7,
            rec_task = \<lparr>original = ''Add 2 and 2'', modified = Some ''Add 2 and 2''\<rparr>,
            boss_decision = \<lparr>decision_selected_agent = ''B'', decision_reasoning = ''math task''\<rparr>,
            execution = \<lparr>exec_agent_name = ''B'', exec_agent_id = ''id-B'', was_executed = True,
                         exec_response = Some ''B got: Add 2 and 2'',
                         exec_execution_time = Some 2\<rparr>,
            rec_total_time = 5\<rparr>,
      [(''user'', ''Add 2 and 2''), (''assistant'', ''B: math task''),
       (''B'', ''B got: Add 2 and 2'')],
      8)"
  by code_simp

lemma demo_run_B_any:
  "fst (run demo_env (function_caller demo_router) ''What is 2+2?'' w) =
     Some (Validated \<lparr>selected_agent = ''B'', reasoning = ''math task'', modified_task = None\<rparr>)"
  by (simp add: run_def run_try_def parse_content_def make_request_def remove_markdown_def
      startswith_def demo_env_def demo_router_def demo_caller_def demo_reply_def
      demo_json_loads_def demo_validate_def reply_B_def)

lemma demo_outcomes:
  "route_outcomes demo_env demo_router [''What is 2+2?'', ''Say hi'', ''Add 2 and 2''] ([], 0) =
     [Inr \<lparr>rec_id = ''uuuuuu'', timestamp = 7,
            rec_task = \<lparr>original = ''What is 2+2?'', modified = None\<rparr>,
            boss_decision = \<lparr>decision_selected_agent = ''B'', decision_reasoning = ''math task''\<rparr>,
            execution = \<lparr>exec_agent_name = ''B'', exec_agent_id = ''id-B'', was_executed = True,
                         exec_response = Some ''B got: What is 2+2?'',
                         exec_execution_time = Some 2\<rparr>,
            rec_total_time = 5\<rparr>,
      Inl (ValueError ''Boss selected unknown agent: C''),
      Inr \<lparr>rec_id = ''uuuuuuuuuuuuuuuu'', timestamp = 17,
            rec_task = \<lparr>original = ''Add 2 and 2'', modified = Some ''Add 2 and 2''\<rparr>,
            boss_decision = \<lparr>decision_selected_agent = ''B'', decision_reasoning = ''math task''\<rparr>,
            execution = \<lparr>exec_agent_name = ''B'', exec_agent_id = ''id-B'', was_executed = True,
                         exec_response = Some ''B got: Add 2 and 2'',
                         exec_execution_time = Some 2\<rparr>,
            rec_total_time = 5\<rparr>]"
  by code_simp

lemma demo_completion:
  "completion demo_env (make_request demo_caller task) w = (demo_reply task, Suc w)"
  by (simp add: demo_env_def make_request_def)

lemma demo_strip_replies:
  "strip reply_B = reply_B" "strip reply_C = reply_C" "strip reply_modified = reply_modified"
  "strip reply_no_agent = reply_no_agent" "strip ''null'' = ''null''"
  by code_simp+

lemma demo_replies_no_fence:
  "\<not> startswith reply_B ''```json''" "\<not> startswith reply_C ''```json''"
  "\<not> startswith reply_modified ''```json''" "\<not> startswith reply_no_agent ''```json''"
  "\<not> startswith ''null'' ''```json''"
  by code_simp+

lemma demo_json_loads_dom:
  "demo_json_loads s = Some j \<Longrightarrow>
     s = reply_B \<or> s = reply_C \<or> s = reply_modified \<or> s = reply_no_agent \<or> s = ''null''"
  by (auto simp add: demo_json_loads_def split: if_splits)

lemma demo_json_loads_spaces:
  "\<forall>s j. json_loads demo_env s = Some j \<longrightarrow> json_loads demo_env (strip s) = Some j"
proof (intro allI impI)
  fix s j assume "json_loads demo_env s = Some j"
  then have l: "demo_json_loads s = Some j" by (simp add: demo_env_def)
  from demo_json_loads_dom [OF l] have "strip s = s"
    by (auto simp add: demo_strip_replies)
  with l show "json_loads demo_env (strip s) = Some j" by (simp add: demo_env_def)
qed

lemma demo_json_loads_no_fence:
  "\<forall>s. startswith s ''```json'' \<longrightarrow> json_loads demo_env s = None"
proof (intro allI impI)
  fix s assume f: "startswith s ''```json''"
  show "json_loads demo_env s = None"
  proof (cases "demo_json_loads s")
    case None
    then show ?thesis by (simp add: demo_env_def)
  next
    case (Some j)
    from demo_json_loads_dom [OF Some] f demo_replies_no_fence show ?thesis by auto
  qed
qed

subsection \<open>How \<^verbatim>\<open>route_task\<close> ends\<close>

lemma make_result_stable:
  "make_result e self task ft b agent st resp et w = (r, w') \<Longrightarrow> stable_fields r =
     (\<lparr>original = task, modified = (if truthy (modified_task b) then Some ft else None)\<rparr>,
      \<lparr>decision_selected_agent = selected_agent b, decision_reasoning = reasoning b\<rparr>,
      agent_name agent, agent_id agent, execute_task self,
      (if execute_task self then resp else None))"
  by (auto simp add: make_result_def stable_fields_def split: prod.splits)

lemma route_task_unknown_agent:
  assumes "run e (function_caller self) task (snd (now e w)) = (Some (Validated b), w2)"
    and "map_of (agents self) (selected_agent b) = None"
  shows "route_task e self task (conv, w) =
           (Inl (ValueError (''Boss selected unknown agent: '' @ selected_agent b)),
            conv @ [(''user'', task), (''assistant'', any_to_str e (Some (Validated b)))], w2)"
  using assms by (cases "now e w") (simp add: route_task_def conversation_add_def Let_def)

lemma route_task_known_agent:
  assumes "run e (function_caller self) task (snd (now e w)) = (Some (Validated b), w2)"
    and "map_of (agents self) (selected_agent b) = Some agent"
  shows "route_task e self task (conv, w) =
           dispatch e self task b agent (fst (now e w))
             (conv @ [(''user'', task), (''assistant'', any_to_str e (Some (Validated b)))], w2)"
  using assms by (cases "now e w") (simp add: route_task_def conversation_add_def Let_def)

lemma route_task_no_decision:
  assumes "run e (function_caller self) task (snd (now e w)) = (v, w2)"
    and "\<forall>b. v \<noteq> Some (Validated b)"
  shows "route_task e self task (conv, w) =
           (Inl (AttributeError ''selected_agent''),
            conv @ [(''user'', task), (''assistant'', any_to_str e v)], w2)"
  using assms
  by (cases "now e w")
     (auto simp add: route_task_def conversation_add_def Let_def split: option.splits run_value.splits)

lemma route_task_Inr_elim:
  assumes "route_task e self task (conv, w) = (Inr r, s')"
  obtains b agent w2 where
    "run e (function_caller self) task (snd (now e w)) = (Some (Validated b), w2)"
    "map_of (agents self) (selected_agent b) = Some agent"
    "dispatch e self task b agent (fst (now e w))
       (conv @ [(''user'', task), (''assistant'', any_to_str e (Some (Validated b)))], w2) = (Inr r, s')"
proof -
  obtain v w2 where rn: "run e (function_caller self) task (snd (now e w)) = (v, w2)"
    by (cases "run e (function_caller self) task (snd (now e w))")
  show thesis
  proof (cases "\<exists>b. v = Some (Validated b)")
    case False
    then have "\<forall>b. v \<noteq> Some (Validated b)" by simp
    from route_task_no_decision [OF rn this] assms show thesis by simp
  next
    case True
    then obtain b where v: "v = Some (Validated b)" by blast
    show thesis
    proof (cases "map_of (agents self) (selected_agent b)")
      case None
      from route_task_unknown_agent [OF rn [unfolded v] None] assms show thesis by simp
    next
      case (Some agent)
      from route_task_known_agent [OF rn [unfolded v] Some] assms that rn v Some
      show thesis by simp
    qed
  qed
qed

lemma dispatch_Inr_stable:
  assumes "dispatch e self task b agent st (conv, w) = (Inr r, s')"
  shows "stable_fields r =
     (\<lparr>original = task, modified = (if truthy (modified_task b) then Some task else None)\<rparr>,
      \<lparr>decision_selected_agent = selected_agent b, decision_reasoning = reasoning b\<rparr>,
      agent_name agent, agent_id agent, execute_task self,
      (if execute_task self
       then (case fst (agent_run agent task (snd (now e w))) of Inr out \<Rightarrow> Some out | Inl err \<Rightarrow> None)
       else None))"
  using assms
  by (auto simp add: dispatch_def Let_def split: prod.splits if_splits sum.splits
           dest!: make_result_stable)

lemma dispatch_executes:
  assumes "execute_task self"
  shows "dispatch e self task b agent st (conv, w) =
     (case agent_run agent task (snd (now e w)) of
        (Inl err, w2) \<Rightarrow> (Inl err, conv, w2)
      | (Inr out, w2) \<Rightarrow>
          (case make_result e self task task b agent st (Some out)
                  (fst (now e w2) - fst (now e w)) (snd (now e w2)) of
             (r, w4) \<Rightarrow> (Inr r, conv @ [(agent_name agent, out)], w4)))"
  using assms
  by (simp add: dispatch_def Let_def conversation_add_def split: prod.splits sum.splits)

lemma route_task_task_variants:
  assumes "route_task e self task (conv, w) = (Inr r, s')"
  shows "\<exists>b. fst (run e (function_caller self) task (snd (now e w))) = Some (Validated b) \<and>
             rec_task r = \<lparr>original = task,
                             modified = (if truthy (modified_task b) then Some task else None)\<rparr>"
proof -
  from assms obtain b agent w2 where
    rn: "run e (function_caller self) task (snd (now e w)) = (Some (Validated b), w2)" and
    d: "dispatch e self task b agent (fst (now e w))
       (conv @ [(''user'', task), (''assistant'', any_to_str e (Some (Validated b)))], w2) = (Inr r, s')"
    by (rule route_task_Inr_elim)
  from dispatch_Inr_stable [OF d] have "rec_task r = \<lparr>original = task,
       modified = (if truthy (modified_task b) then Some task else None)\<rparr>"
    by (simp add: stable_fields_def)
  with rn show ?thesis by simp
qed

lemma dispatch_returns:
  "\<not> isl (fst (dispatch e self task b agent st (conv, w))) \<longleftrightarrow>
     (execute_task self \<longrightarrow> \<not> isl (fst (agent_run agent task (snd (now e w)))))"
  by (auto simp add: dispatch_def Let_def split: prod.splits sum.splits)

lemma dispatch_repeatable:
  assumes det: "\<forall>w w'. fst (agent_run agent task w) = fst (agent_run agent task w')"
    and first: "dispatch e self task b agent st (conv, w) = (Inr r1, s1)"
  shows "\<exists>r2 s2. dispatch e self task b agent st' (conv', w') = (Inr r2, s2) \<and>
                 stable_fields r2 = stable_fields r1"
proof -
  from first have "\<not> isl (fst (dispatch e self task b agent st (conv, w)))" by simp
  then have "execute_task self \<longrightarrow> \<not> isl (fst (agent_run agent task (snd (now e w))))"
    by (simp only: dispatch_returns)
  with det have "execute_task self \<longrightarrow> \<not> isl (fst (agent_run agent task (snd (now e w'))))"
    by metis
  then have "\<not> isl (fst (dispatch e self task b agent st' (conv', w')))"
    by (simp only: dispatch_returns)
  then obtain r2 s2 where second: "dispatch e self task b agent st' (conv', w') = (Inr r2, s2)"
    by (cases "dispatch e self task b agent st' (conv', w')";
        cases "fst (dispatch e self task b agent st' (conv', w'))") auto
  from det have "fst (agent_run agent task (snd (now e w'))) = fst (agent_run agent task (snd (now e w)))"
    by blast
  with dispatch_Inr_stable [OF first] dispatch_Inr_stable [OF second]
  have "stable_fields r2 = stable_fields r1" by simp
  with second show ?thesis by blast
qed

subsection \<open>The selected handler is a registered one\<close>

text \<open>
  Claim C1. Whatever the task and the registry, a record that \<^verbatim>\<open>route_task\<close> returns
  names a registered handler in \<^verbatim>\<open>boss_decision.selected_agent\<close>; and when the decision
  step returns a name that is not in the registry, \<^verbatim>\<open>route_task\<close> raises \<^verbatim>\<open>ValueError\<close>
  (so it returns no record).
\<close>

theorem route_task_selected_agent_registered:
  "(route_task e self task (conv, w) = (Inr r, s') \<longrightarrow>
      decision_selected_agent (boss_decision r) \<in> fst ` set (agents self)) \<and>
   (fst (run e (function_caller self) task (snd (now e w))) = Some (Validated b) \<and>
    selected_agent b \<notin> fst ` set (agents self) \<longrightarrow>
      fst (route_task e self task (conv, w)) =
        Inl (ValueError (''Boss selected unknown agent: '' @ selected_agent b)))"
proof (intro conjI impI)
  assume ok: "route_task e self task (conv, w) = (Inr r, s')"
  from ok obtain b' agent w2 where
    sel: "map_of (agents self) (selected_agent b') = Some agent" and
    d: "dispatch e self task b' agent (fst (now e w))
       (conv @ [(''user'', task), (''assistant'', any_to_str e (Some (Validated b')))], w2) = (Inr r, s')"
    by (rule route_task_Inr_elim)
  from dispatch_Inr_stable [OF d]
  have "decision_selected_agent (boss_decision r) = selected_agent b'"
    by (simp add: stable_fields_def)
  moreover from sel have "selected_agent b' \<in> fst ` set (agents self)"
    by (metis map_of_eq_None_iff option.distinct(1))
  ultimately show "decision_selected_agent (boss_decision r) \<in> fst ` set (agents self)"
    by simp
next
  assume h: "fst (run e (function_caller self) task (snd (now e w))) = Some (Validated b) \<and>
    selected_agent b \<notin> fst ` set (agents self)"
  then obtain w2 where rn: "run e (function_caller self) task (snd (now e w)) = (Some (Validated b), w2)"
    by (cases "run e (function_caller self) task (snd (now e w))") simp
  from h have "map_of (agents self) (selected_agent b) = None"
    by (simp add: map_of_eq_None_iff)
  from route_task_unknown_agent [OF rn this]
  show "fst (route_task e self task (conv, w)) =
        Inl (ValueError (''Boss selected unknown agent: '' @ selected_agent b))"
    by simp
qed

theorem route_task_selected_agent_registered_witness:
  "route_task demo_env demo_router ''What is 2+2?'' ([], 0) =
     (Inr \<lparr>rec_id = ''uuuuuu'', timestamp = 7,
            rec_task = \<lparr>original = ''What is 2+2?'', modified = None\<rparr>,
            boss_decision = \<lparr>decision_selected_agent = ''B'', decision_reasoning = ''math task''\<rparr>,
            execution = \<lparr>exec_agent_name = ''B'', exec_agent_id = ''id-B'', was_executed = True,
                         exec_response = Some ''B got: What is 2+2?'',
                         exec_execution_time = Some 2\<rparr>,
            rec_total_time = 5\<rparr>,
      [(''user'', ''What is 2+2?''), (''assistant'', ''B: math task''),
       (''B'', ''B got: What is 2+2?'')],
      8) \<and>
   ''B'' \<in> fst ` set (agents demo_router) \<and>
   fst (run demo_env (function_caller demo_router) ''Say hi'' (snd (now demo_env 0))) =
     Some (Validated \<lparr>selected_agent = ''C'', reasoning = ''none fits'', modified_task = None\<rparr>) \<and>
   ''C'' \<notin> fst ` set (agents demo_router) \<and>
   fst (route_task demo_env demo_router ''Say hi'' ([], 0)) =
     Inl (ValueError ''Boss selected unknown agent: C'')"
  using route_task_selected_agent_registered
          [of demo_env demo_router "''What is 2+2?''" "[]" 0 _ _
              "\<lparr>selected_agent = ''C'', reasoning = ''none fits'', modified_task = None\<rparr>"]
        route_task_selected_agent_registered
          [of demo_env demo_router "''Say hi''" "[]" 0 _ _
              "\<lparr>selected_agent = ''C'', reasoning = ''none fits'', modified_task = None\<rparr>"]
  by (simp add: demo_route_B demo_run_C demo_registry)

subsection \<open>A failed route leaves its trace in the conversation\<close>

text \<open>
  Claim C10. When \<^verbatim>\<open>route_task\<close> raises because the decision names a handler that is
  not registered, the conversation has grown by exactly two turns: the user turn with
  the task and the assistant turn with the stringified decision.
\<close>

theorem route_task_unknown_agent_two_turns:
  assumes "fst (run e (function_caller self) task (snd (now e w))) = Some (Validated b)"
    and "selected_agent b \<notin> fst ` set (agents self)"
  shows "route_task e self task (conv, w) =
           (Inl (ValueError (''Boss selected unknown agent: '' @ selected_agent b)),
            conv @ [(''user'', task), (''assistant'', any_to_str e (Some (Validated b)))],
            snd (run e (function_caller self) task (snd (now e w))))"
proof -
  from assms(1)
  have rn: "run e (function_caller self) task (snd (now e w)) =
              (Some (Validated b), snd (run e (function_caller self) task (snd (now e w))))"
    by (cases "run e (function_caller self) task (snd (now e w))") simp
  from assms(2) have "map_of (agents self) (selected_agent b) = None"
    by (simp add: map_of_eq_None_iff)
  from route_task_unknown_agent [OF rn this] show ?thesis .
qed

theorem route_task_unknown_agent_two_turns_witness:
  "fst (run demo_env (function_caller demo_router) ''Say hi'' (snd (now demo_env 0))) =
     Some (Validated \<lparr>selected_agent = ''C'', reasoning = ''none fits'', modified_task = None\<rparr>) \<and>
   ''C'' \<notin> fst ` set (agents demo_router) \<and>
   route_task demo_env demo_router ''Say hi'' ([(''user'', ''earlier'')], 0) =
     (Inl (ValueError ''Boss selected unknown agent: C''),
      [(''user'', ''earlier''), (''user'', ''Say hi''), (''assistant'', ''C: none fits'')], 2)"
  using route_task_unknown_agent_two_turns
          [of demo_env demo_router "''Say hi''" 0
              "\<lparr>selected_agent = ''C'', reasoning = ''none fits'', modified_task = None\<rparr>"
              "[(''user'', ''earlier'')]"]
  by (simp add: demo_run_C demo_registry) (simp add: demo_env_def)

subsection \<open>The handler is given the original task\<close>

text \<open>
  Claim C3. With execution enabled, \<^verbatim>\<open>route_task\<close> calls the selected handler's \<^verbatim>\<open>run\<close>
  with the task text exactly as the caller gave it, whatever modified task the decision
  carries: the outcome of \<^verbatim>\<open>route_task\<close>, the turn it logs and the world it leaves are
  those of the one call \<open>agent_run agent task\<close>, made after the decision and one reading
  of the clock.
\<close>

theorem route_task_executes_original_task:
  assumes "execute_task self"
    and "run e (function_caller self) task (snd (now e w)) = (Some (Validated b), w2)"
    and "map_of (agents self) (selected_agent b) = Some agent"
  shows "case agent_run agent task (snd (now e w2)) of
           (Inl err, w4) \<Rightarrow>
             route_task e self task (conv, w) =
               (Inl err,
                conv @ [(''user'', task), (''assistant'', any_to_str e (Some (Validated b)))], w4)
         | (Inr out, w4) \<Rightarrow>
             (\<exists>r. route_task e self task (conv, w) =
                (Inr r,
                 conv @ [(''user'', task), (''assistant'', any_to_str e (Some (Validated b))),
                         (agent_name agent, out)],
                 snd (now e (snd (uuid4 e (snd (now e (snd (now e w4)))))))) \<and>
                exec_response (execution r) = Some out)"
proof -
  let ?conv2 = "conv @ [(''user'', task), (''assistant'', any_to_str e (Some (Validated b)))]"
  have rt: "route_task e self task (conv, w) =
      dispatch e self task b agent (fst (now e w)) (?conv2, w2)"
    by (rule route_task_known_agent [OF assms(2,3)])
  show ?thesis
    unfolding rt dispatch_executes [OF assms(1)]
    by (auto simp add: make_result_def assms(1) split: prod.splits sum.splits)
qed

theorem route_task_executes_original_task_witness:
  "execute_task demo_router \<and>
   run demo_env (function_caller demo_router) ''Add 2 and 2'' (snd (now demo_env 0)) =
     (Some (Validated \<lparr>selected_agent = ''B'', reasoning = ''math task'',
                        modified_task = Some ''Compute 2+2''\<rparr>), 2) \<and>
   map_of (agents demo_router) ''B'' = Some (demo_agent ''B'' ''handles math'') \<and>
   agent_run (demo_agent ''B'' ''handles math'') ''Add 2 and 2'' 3 = (Inr ''B got: Add 2 and 2'', 4) \<and>
   (\<exists>r. route_task demo_env demo_router ''Add 2 and 2'' ([], 0) =
          (Inr r, [(''user'', ''Add 2 and 2''), (''assistant'', ''B: math task''),
                   (''B'', ''B got: Add 2 and 2'')], 8) \<and>
        exec_response (execution r) = Some ''B got: Add 2 and 2'')"
proof -
  have x: "execute_task demo_router" by (simp add: demo_router_def)
  have l: "map_of (agents demo_router)
             (selected_agent \<lparr>selected_agent = ''B'', reasoning = ''math task'',
                               modified_task = Some ''Compute 2+2''\<rparr>) =
           Some (demo_agent ''B'' ''handles math'')"
    by (simp add: demo_lookup_B)
  have a: "agent_run (demo_agent ''B'' ''handles math'') ''Add 2 and 2'' 3 =
             (Inr ''B got: Add 2 and 2'', 4)"
    by (simp add: demo_agent_def)
  have n: "snd (now demo_env 2) = 3"
    "snd (now demo_env (snd (uuid4 demo_env (snd (now demo_env (snd (now demo_env 4))))))) = 8"
    by (simp_all add: demo_env_def)
  have t: "any_to_str demo_env
             (Some (Validated \<lparr>selected_agent = ''B'', reasoning = ''math task'',
                                 modified_task = Some ''Compute 2+2''\<rparr>)) = ''B: math task''"
    by (simp add: demo_env_def)
  have m: "agent_name (demo_agent ''B'' ''handles math'') = ''B''"
    by (simp add: demo_agent_def)
  from route_task_executes_original_task [OF x demo_run_modified l, of "[]"]
  show ?thesis
    by (simp add: x demo_run_modified demo_lookup_B a n t m)
qed

subsection \<open>Routing the same task twice\<close>

text \<open>
  Claim C9. When the decision step and the selected handler answer the task the same way
  in every world, a second \<^verbatim>\<open>route_task\<close> with the same task, made after a first one
  that returned a record, returns a record too, with the same \<^verbatim>\<open>selected_agent\<close> and the
  same \<^verbatim>\<open>response\<close>; the two records differ at most in the id, the timestamp and the two
  elapsed times.
\<close>

theorem route_task_repeatable:
  assumes decision: "\<forall>w w'. fst (run e (function_caller self) task w) =
                             fst (run e (function_caller self) task w')"
    and handler: "\<forall>agent. map_of (agents self) (decision_selected_agent (boss_decision r1)) = Some agent \<longrightarrow>
                    (\<forall>w w'. fst (agent_run agent task w) = fst (agent_run agent task w'))"
    and first: "route_task e self task s0 = (Inr r1, s1)"
  shows "\<exists>r2 s2. route_task e self task s1 = (Inr r2, s2) \<and>
           decision_selected_agent (boss_decision r2) = decision_selected_agent (boss_decision r1) \<and>
           exec_response (execution r2) = exec_response (execution r1) \<and>
           stable_fields r2 = stable_fields r1"
proof -
  obtain conv0 w0 where s0: "s0 = (conv0, w0)" by (cases s0)
  obtain conv1 w1 where s1: "s1 = (conv1, w1)" by (cases s1)
  from first [unfolded s0] obtain b agent w2 where
    rn: "run e (function_caller self) task (snd (now e w0)) = (Some (Validated b), w2)" and
    sel: "map_of (agents self) (selected_agent b) = Some agent" and
    d: "dispatch e self task b agent (fst (now e w0))
       (conv0 @ [(''user'', task), (''assistant'', any_to_str e (Some (Validated b)))], w2) = (Inr r1, s1)"
    by (rule route_task_Inr_elim)
  from dispatch_Inr_stable [OF d]
  have name: "decision_selected_agent (boss_decision r1) = selected_agent b"
    by (simp add: stable_fields_def)
  from handler sel name
  have det: "\<forall>w w'. fst (agent_run agent task w) = fst (agent_run agent task w')" by simp
  from decision rn
  have "fst (run e (function_caller self) task (snd (now e w1))) = Some (Validated b)"
    by (metis fst_conv)
  then obtain w2' where
    rn': "run e (function_caller self) task (snd (now e w1)) = (Some (Validated b), w2')"
    by (cases "run e (function_caller self) task (snd (now e w1))") simp
  have rt: "route_task e self task (conv1, w1) =
      dispatch e self task b agent (fst (now e w1))
        (conv1 @ [(''user'', task), (''assistant'', any_to_str e (Some (Validated b)))], w2')"
    by (rule route_task_known_agent [OF rn' sel])
  from dispatch_repeatable [OF det d] obtain r2 s2 where
    second: "dispatch e self task b agent (fst (now e w1))
        (conv1 @ [(''user'', task), (''assistant'', any_to_str e (Some (Validated b)))], w2') = (Inr r2, s2)"
    and st: "stable_fields r2 = stable_fields r1"
    by blast
  from st have "decision_selected_agent (boss_decision r2) = decision_selected_agent (boss_decision r1)"
    "exec_response (execution r2) = exec_response (execution r1)"
    by (simp_all add: stable_fields_def)
  with second st rt s1 show ?thesis by simp
qed

theorem route_task_repeatable_witness:
  "route_task demo_env demo_router ''What is 2+2?'' ([], 0) =
     (Inr \<lparr>rec_id = ''uuuuuu'', timestamp = 7,
            rec_task = \<lparr>original = ''What is 2+2?'', modified = None\<rparr>,
            boss_decision = \<lparr>decision_selected_agent = ''B'', decision_reasoning = ''math task''\<rparr>,
            execution = \<lparr>exec_agent_name = ''B'', exec_agent_id = ''id-B'', was_executed = True,
                         exec_response = Some ''B got: What is 2+2?'',
                         exec_execution_time = Some 2\<rparr>,
            rec_total_time = 5\<rparr>,
      [(''user'', ''What is 2+2?''), (''assistant'', ''B: math task''),
       (''B'', ''B got: What is 2+2?'')],
      8) \<and>
   (\<exists>r2 s2. route_task demo_env demo_router ''What is 2+2?''
               ([(''user'', ''What is 2+2?''), (''assistant'', ''B: math task''),
                 (''B'', ''B got: What is 2+2?'')], 8) = (Inr r2, s2) \<and>
            decision_selected_agent (boss_decision r2) = ''B'' \<and>
            exec_response (execution r2) = Some ''B got: What is 2+2?'')"
proof -
  have decision: "\<forall>w w'. fst (run demo_env (function_caller demo_router) ''What is 2+2?'' w) =
                         fst (run demo_env (function_caller demo_router) ''What is 2+2?'' w')"
    by (simp add: demo_run_B_any)
  have handler: "\<forall>agent. map_of (agents demo_router)
        (decision_selected_agent (boss_decision
          \<lparr>rec_id = ''uuuuuu'', timestamp = 7,
            rec_task = \<lparr>original = ''What is 2+2?'', modified = None\<rparr>,
            boss_decision = \<lparr>decision_selected_agent = ''B'', decision_reasoning = ''math task''\<rparr>,
            execution = \<lparr>exec_agent_name = ''B'', exec_agent_id = ''id-B'', was_executed = True,
                         exec_response = Some ''B got: What is 2+2?'',
                         exec_execution_time = Some 2\<rparr>,
            rec_total_time = 5\<rparr>)) = Some agent \<longrightarrow>
      (\<forall>w w'. fst (agent_run agent ''What is 2+2?'' w) = fst (agent_run agent ''What is 2+2?'' w'))"
    by (simp add: demo_lookup_B) (simp add: demo_agent_def)
  from route_task_repeatable [OF decision handler demo_route_B] show ?thesis
    by (simp add: demo_route_B) blast
qed

subsection \<open>The router's batch run\<close>

lemma router_batch_loop_successes:
  "fst (router_batch_loop e self tasks acc s) = acc @ successes (route_outcomes e self tasks s)"
proof (induction tasks arbitrary: acc s)
  case Nil
  show ?case by simp
next
  case (Cons task tasks)
  obtain out s' where rt: "route_task e self task s = (out, s')"
    by (cases "route_task e self task s")
  show ?case
    by (cases out) (simp_all add: rt Cons.IH)
qed

lemma length_route_outcomes: "length (route_outcomes e self tasks s) = length tasks"
  by (induction tasks arbitrary: s) (simp_all split: prod.splits)

lemma successes_append: "successes (xs @ ys) = successes xs @ successes ys"
  by (induction xs rule: successes.induct) simp_all

lemma successes_all_Inr:
  "\<forall>x\<in>set xs. \<not> isl x \<Longrightarrow> map Inr (successes xs) = xs"
  by (induction xs rule: successes.induct) simp_all

lemma successes_one_failure:
  assumes "j < length outs" and "\<forall>i<length outs. isl (outs ! i) \<longleftrightarrow> i = j"
  shows "map Inr (successes outs) = take j outs @ drop (Suc j) outs"
proof -
  have split: "outs = take j outs @ outs ! j # drop (Suc j) outs"
    using assms(1) by (rule id_take_nth_drop)
  have before: "\<forall>x\<in>set (take j outs). \<not> isl x"
    using assms by (auto simp add: in_set_conv_nth)
  have after: "\<forall>x\<in>set (drop (Suc j) outs). \<not> isl x"
    using assms by (auto simp add: in_set_conv_nth)
  from assms have "isl (outs ! j)" by simp
  then obtain err where failed: "outs ! j = Inl err" by (cases "outs ! j") simp_all
  have "successes outs = successes (take j outs) @ successes (outs ! j # drop (Suc j) outs)"
    by (subst split) (simp only: successes_append)
  then have "successes outs = successes (take j outs) @ successes (drop (Suc j) outs)"
    by (simp add: failed)
  then show ?thesis
    by (simp add: successes_all_Inr [OF before] successes_all_Inr [OF after])
qed

text \<open>
  Claim C4. When exactly the task at position \<open>j\<close> of \<open>k\<close> tasks makes \<^verbatim>\<open>route_task\<close>
  raise, the router's \<^verbatim>\<open>batch_run\<close> returns \<open>k - 1\<close> results: the outcomes of the other
  tasks, in input order, with nothing in the place of task \<open>j\<close>. The tasks after \<open>j\<close>
  are routed and their results are returned.
\<close>

theorem router_batch_run_omits_failed_task:
  assumes "j < length tasks"
    and "\<forall>i<length tasks. isl (route_outcomes e self tasks s ! i) \<longleftrightarrow> i = j"
  shows "length (fst (router_batch_run e self tasks s)) = length tasks - 1 \<and>
         map Inr (fst (router_batch_run e self tasks s)) =
           take j (route_outcomes e self tasks s) @ drop (Suc j) (route_outcomes e self tasks s)"
proof -
  let ?outs = "route_outcomes e self tasks s"
  have res: "fst (router_batch_run e self tasks s) = successes ?outs"
    by (simp add: router_batch_run_def router_batch_loop_successes)
  from assms have m: "map Inr (successes ?outs) = take j ?outs @ drop (Suc j) ?outs"
    by (intro successes_one_failure) (simp_all add: length_route_outcomes)
  have "length (take j ?outs @ drop (Suc j) ?outs) = length tasks - 1"
    using assms(1) by (simp add: length_route_outcomes)
  with m have "length (successes ?outs) = length tasks - 1"
    by (metis length_map)
  with m res show ?thesis by simp
qed

theorem router_batch_run_omits_failed_task_witness:
  "(1::nat) < length [''What is 2+2?'', ''Say hi'', ''Add 2 and 2''] \<and>
   isl (route_outcomes demo_env demo_router [''What is 2+2?'', ''Say hi'', ''Add 2 and 2''] ([], 0) ! 1) \<and>
   length (fst (router_batch_run demo_env demo_router
                  [''What is 2+2?'', ''Say hi'', ''Add 2 and 2''] ([], 0))) = 2 \<and>
   map Inr (fst (router_batch_run demo_env demo_router
                  [''What is 2+2?'', ''Say hi'', ''Add 2 and 2''] ([], 0))) =
     [route_outcomes demo_env demo_router [''What is 2+2?'', ''Say hi'', ''Add 2 and 2''] ([], 0) ! 0,
      route_outcomes demo_env demo_router [''What is 2+2?'', ''Say hi'', ''Add 2 and 2''] ([], 0) ! 2]"
proof -
  have j: "(1::nat) < length [''What is 2+2?'', ''Say hi'', ''Add 2 and 2'']" by simp
  have one: "\<forall>i<length [''What is 2+2?'', ''Say hi'', ''Add 2 and 2''].
      isl (route_outcomes demo_env demo_router
             [''What is 2+2?'', ''Say hi'', ''Add 2 and 2''] ([], 0) ! i) \<longleftrightarrow> i = 1"
    unfolding demo_outcomes by (auto simp add: nth_Cons' less_Suc_eq)
  from router_batch_run_omits_failed_task [OF j one] show ?thesis
    unfolding demo_outcomes by simp
qed

subsection \<open>A reply that cannot be used\<close>



subsection \<open>A fenced reply\<close>

lemma strip_Cons_space: "isspace a \<Longrightarrow> strip (a # s) = strip s"
  by (simp add: strip_def)

lemma strip_snoc_space:
  assumes "isspace a"
  shows "strip (s @ [a]) = strip s"
proof (cases "\<forall>c\<in>set s. isspace c")
  case True
  then have 1: "dropWhile isspace s = []"
    by (simp only: dropWhile_eq_Nil_conv)
  from True assms have "\<forall>c\<in>set (s @ [a]). isspace c" by simp
  then have 2: "dropWhile isspace (s @ [a]) = []"
    by (simp only: dropWhile_eq_Nil_conv)
  show ?thesis by (simp add: strip_def 1 2)
next
  case False
  with assms show ?thesis by (auto simp add: strip_def)
qed

lemma remove_markdown_fenced: "remove_markdown (fenced t) = strip t"
proof -
  have nl: "isspace (CHR 0x0A)" by (simp add: isspace_def)
  have a: "strip_chars (fenced t) ''```json'' = CHR 0x0A # t @ [CHR 0x0A]"
    by (simp add: strip_chars_def fenced_def)
  have b: "strip_chars (CHR 0x0A # t @ [CHR 0x0A]) ''```'' = CHR 0x0A # t @ [CHR 0x0A]"
    by (simp add: strip_chars_def)
  have "strip (CHR 0x0A # t @ [CHR 0x0A]) = strip (t @ [CHR 0x0A])"
    by (rule strip_Cons_space [OF nl])
  also have "\<dots> = strip t"
    by (rule strip_snoc_space [OF nl])
  finally have c: "strip (CHR 0x0A # t @ [CHR 0x0A]) = strip t" .
  have "startswith (fenced t) ''```json''"
    by (simp add: startswith_def fenced_def)
  then show ?thesis by (simp only: remove_markdown_def a b c if_True)
qed

text \<open>
  Claim C7. For a JSON text \<open>t\<close>, \<^verbatim>\<open>run\<close> gets the same value from the reply that
  wraps \<open>t\<close> in fences (the opening fence with \<^verbatim>\<open>json\<close>, a line feed, \<open>t\<close>, a line feed, the
  closing fence) as from the reply that is \<open>t\<close> itself. What is used of \<^verbatim>\<open>json.loads\<close>:
  it ignores white space around a text it accepts, and it accepts no text that starts
  with the opening fence.
\<close>

theorem run_fenced_reply_parses_like_bare:
  assumes spaces: "\<forall>s j. json_loads e s = Some j \<longrightarrow> json_loads e (strip s) = Some j"
    and nofence: "\<forall>s. startswith s ''```json'' \<longrightarrow> json_loads e s = None"
    and valid: "json_loads e t \<noteq> None"
    and wrapped: "completion e (make_request self task1) w1 = (Inr (Some (fenced t) # rest1), w1')"
    and bare: "completion e (make_request self task2) w2 = (Inr (Some t # rest2), w2')"
  shows "fst (run e self task1 w1) = fst (run e self task2 w2) \<and>
         json_loads e (remove_markdown (fenced t)) = json_loads e t"
proof -
  from valid obtain j where j: "json_loads e t = Some j" by blast
  with nofence have "\<not> startswith t ''```json''" by force
  then have plain: "remove_markdown t = t" by (simp add: remove_markdown_def)
  from spaces j have "json_loads e (strip t) = Some j" by blast
  with j have same: "json_loads e (remove_markdown (fenced t)) = json_loads e t"
    by (simp add: remove_markdown_fenced)
  then have "parse_content e self (fenced t) = parse_content e self t"
    by (simp add: parse_content_def plain)
  with wrapped bare same show ?thesis
    by (simp add: run_def run_try_def split: sum.splits)
qed

theorem run_fenced_reply_parses_like_bare_witness:
  "json_loads demo_env reply_B =
     Some (JObject [(''selected_agent'', JString ''B''), (''reasoning'', JString ''math task'')]) \<and>
   completion demo_env (make_request demo_caller ''fenced'') 0 = (Inr [Some (fenced reply_B)], 1) \<and>
   completion demo_env (make_request demo_caller ''What is 2+2?'') 0 = (Inr [Some reply_B], 1) \<and>
   fst (run demo_env demo_caller ''fenced'' 0) = fst (run demo_env demo_caller ''What is 2+2?'' 0) \<and>
   fst (run demo_env demo_caller ''fenced'' 0) =
     Some (Validated \<lparr>selected_agent = ''B'', reasoning = ''math task'', modified_task = None\<rparr>)"
proof -
  have t: "json_loads demo_env reply_B =
     Some (JObject [(''selected_agent'', JString ''B''), (''reasoning'', JString ''math task'')])"
    by code_simp
  then have valid: "json_loads demo_env reply_B \<noteq> None" by simp
  have wrapped: "completion demo_env (make_request demo_caller ''fenced'') 0 =
                   (Inr (Some (fenced reply_B) # []), 1)"
    by (simp add: demo_completion demo_reply_def)
  have bare: "completion demo_env (make_request demo_caller ''What is 2+2?'') 0 =
                (Inr (Some reply_B # []), 1)"
    by (simp add: demo_completion demo_reply_def)
  have r: "fst (run demo_env demo_caller ''What is 2+2?'' 0) =
     Some (Validated \<lparr>selected_agent = ''B'', reasoning = ''math task'', modified_task = None\<rparr>)"
    by code_simp
  from run_fenced_reply_parses_like_bare
         [OF demo_json_loads_spaces demo_json_loads_no_fence valid wrapped bare]
  show ?thesis by (simp add: t wrapped bare r)
qed

subsection \<open>The Model Caller's batch and concurrent runs\<close>

text \<open>
  \<^verbatim>\<open>batch_run\<close> returns one result per task, at the task's position, \<^verbatim>\<open>None\<close> included:
  the result at position \<open>i\<close> is that of \<^verbatim>\<open>run\<close> on task \<open>i\<close> in the world the earlier
  calls left.
\<close>

lemma batch_run_length: "length (fst (batch_run e self tasks w)) = length tasks"
  by (induction tasks arbitrary: w) (simp_all add: case_prod_beta)

lemma batch_run_nth:
  "i < length tasks \<Longrightarrow>
     fst (batch_run e self tasks w) ! i =
       fst (run e self (tasks ! i) (snd (batch_run e self (take i tasks) w)))"
proof (induction tasks arbitrary: i w)
  case Nil
  then show ?case by simp
next
  case (Cons task tasks)
  show ?case
  proof (cases i)
    case 0
    then show ?thesis by (simp add: case_prod_beta)
  next
    case (Suc k)
    with Cons.prems have "k < length tasks" by simp
    from Cons.IH [OF this] Suc show ?thesis by (simp add: case_prod_beta)
  qed
qed

lemma batch_run_deterministic:
  assumes "\<forall>task w w'. fst (run e self task w) = fst (run e self task w')"
  shows "fst (batch_run e self tasks w) = map (\<lambda>task. fst (run e self task w0)) tasks"
proof (induction tasks arbitrary: w)
  case Nil
  show ?case by simp
next
  case (Cons task tasks)
  from assms have "fst (run e self task w) = fst (run e self task w0)" by blast
  with Cons.IH show ?case by (simp add: case_prod_beta)
qed

lemma run_scheduled_length:
  "length (fst (run_scheduled e self tasks sched slots w)) = length slots"
  by (induction sched arbitrary: slots w) (simp_all add: case_prod_beta)

lemma run_scheduled_nth:
  assumes det: "\<forall>task w w'. fst (run e self task w) = fst (run e self task w')"
    and len: "length slots = length tasks" and i: "i < length tasks"
  shows "fst (run_scheduled e self tasks sched slots w) ! i =
           (if i \<in> set sched then fst (run e self (tasks ! i) w0) else slots ! i)"
  using len
proof (induction sched arbitrary: slots w)
  case Nil
  show ?case by simp
next
  case (Cons k sched)
  show ?case
  proof (cases "k < length tasks")
    case False
    with i have "i \<noteq> k" by auto
    with False Cons.IH [OF Cons.prems] show ?thesis by simp
  next
    case True
    obtain r w' where rn: "run e self (tasks ! k) w = (r, w')"
      by (cases "run e self (tasks ! k) w")
    from det rn have r: "r = fst (run e self (tasks ! k) w0)" by (metis fst_conv)
    have "length (slots[k := r]) = length tasks" using Cons.prems by simp
    from Cons.IH [OF this, of w'] True rn r i Cons.prems show ?thesis
      by (auto simp add: nth_list_update)
  qed
qed

text \<open>
  When the result of \<^verbatim>\<open>run\<close> depends on the task alone, \<^verbatim>\<open>concurrent_run\<close> on a list
  that is not empty returns the sequence \<^verbatim>\<open>batch_run\<close> returns, whatever the order in
  which the threads are served.
\<close>

lemma concurrent_run_deterministic:
  assumes det: "\<forall>task w w'. fst (run e self task w) = fst (run e self task w')"
    and nonempty: "tasks \<noteq> []" and sched: "{..<length tasks} \<subseteq> set sched"
  shows "fst (concurrent_run e self tasks sched w) = Inr (fst (batch_run e self tasks w))"
proof -
  let ?slots = "fst (run_scheduled e self tasks sched (replicate (length tasks) None) w)"
  have "?slots = map (\<lambda>task. fst (run e self task w)) tasks"
  proof (rule nth_equalityI)
    show "length ?slots = length (map (\<lambda>task. fst (run e self task w)) tasks)"
      by (simp add: run_scheduled_length)
  next
    fix i assume "i < length ?slots"
    then have i: "i < length tasks" by (simp add: run_scheduled_length)
    with sched have "i \<in> set sched" by auto
    with run_scheduled_nth [OF det _ i, of "replicate (length tasks) None" sched w w] i
    show "?slots ! i = map (\<lambda>task. fst (run e self task w)) tasks ! i" by simp
  qed
  also have "\<dots> = fst (batch_run e self tasks w)"
    by (rule batch_run_deterministic [OF det, symmetric])
  finally show ?thesis using nonempty
    by (simp add: concurrent_run_def case_prod_beta)
qed

text \<open>
  Claim C5. The Model Caller's \<^verbatim>\<open>batch_run\<close> returns a sequence as long as its input,
  and \<^verbatim>\<open>concurrent_run\<close> returns the same sequence. On the empty list \<^verbatim>\<open>concurrent_run\<close>
  does not: the pool is built with \<^verbatim>\<open>max_workers = 0\<close>, its constructor raises
  \<^verbatim>\<open>ValueError\<close>, and the exception leaves \<^verbatim>\<open>concurrent_run\<close>, while \<^verbatim>\<open>batch_run\<close>
  returns the empty list.
\<close>

theorem concurrent_run_empty_raises:
  "concurrent_run e self [] sched w = (Inl (ValueError ''max_workers must be greater than 0''), w) \<and>
   batch_run e self [] w = ([], w)"
  by (simp add: concurrent_run_def)

subsection \<open>What the record keeps of the modified task\<close>

text \<open>
  Claim C2. The record is to keep both variants of the task, the caller's text in
  \<^verbatim>\<open>task.original\<close> and the decision's modified task in \<^verbatim>\<open>task.modified\<close>. The field
  \<^verbatim>\<open>task.modified\<close> is filled from \<^verbatim>\<open>final_task\<close>, which is the caller's text since the
  line that took the modified task was commented out (lemma \<open>route_task_task_variants\<close>).
  Here the decision proposes \<^verbatim>\<open>Compute 2+2\<close> for the task \<^verbatim>\<open>Add 2 and 2\<close>, and the
  record holds \<^verbatim>\<open>Add 2 and 2\<close> in both fields.
\<close>

theorem route_task_modified_is_original_text:
  "run demo_env (function_caller demo_router) ''Add 2 and 2'' (snd (now demo_env 0)) =
     (Some (Validated \<lparr>selected_agent = ''B'', reasoning = ''math task'',
                        modified_task = Some ''Compute 2+2''\<rparr>), 2) \<and>
   route_task demo_env demo_router ''Add 2 and 2'' ([], 0) =
     (Inr \<lparr>rec_id = ''uuuuuu'', timestamp = 7,
            rec_task = \<lparr>original = ''Add 2 and 2'', modified = Some ''Add 2 and 2''\<rparr>,
            boss_decision = \<lparr>decision_selected_agent = ''B'', decision_reasoning = ''math task''\<rparr>,
            execution = \<lparr>exec_agent_name = ''B'', exec_agent_id = ''id-B'', was_executed = True,
                         exec_response = Some ''B got: Add 2 and 2'',
                         exec_execution_time = Some 2\<rparr>,
            rec_total_time = 5\<rparr>,
      [(''user'', ''Add 2 and 2''), (''assistant'', ''B: math task''),
       (''B'', ''B got: Add 2 and 2'')],
      8)"
  by (simp only: demo_run_modified demo_route_modified)

subsection \<open>The router's concurrent batch run against its batch run\<close>










lemma interleave_length:
  "length (fst (interleave e self tasks sched threads s)) = length threads"
  by (induction sched arbitrary: threads s) (simp_all add: case_prod_beta)



















end
